theory Spec2Isabelle
  imports Main "HOL-Library.Sublist"
begin

section \<open>Data model\<close>

text \<open>
  The pipeline of \<^verbatim>\<open>dags/real_state_ETL.py\<close> moves a pandas DataFrame through three
  Python callables. A DataFrame is modelled row-wise: the column labels, the row labels
  (the index, which \<^verbatim>\<open>dropna\<close> keeps and \<^verbatim>\<open>to_csv(index=False)\<close> leaves out) and one
  list of cells per row. A cell is a missing value (NaN, None, NaT) or a value; a finite
  float is kept as mantissa and exponent, the pipeline never computes with it.
\<close>

datatype cell = NA | IntV int | FloatV int int | StrV string | BoolV bool

fun isna :: "cell \<Rightarrow> bool" where
  "isna NA = True"
| "isna _ = False"

record dataframe =
  columns :: "string list"
  index :: "int list"
  rows :: "cell list list"

text \<open>\<^verbatim>\<open>len(df)\<close> is the length of the index.\<close>

definition len :: "dataframe \<Rightarrow> nat" where
  "len df = length (index df)"

text \<open>
  The frames pandas builds are rectangular: one row per index label, one cell per column
  in each row.
\<close>

definition rectangular :: "dataframe \<Rightarrow> bool" where
  "rectangular df \<longleftrightarrow>
     length (index df) = length (rows df) \<and>
     list_all (\<lambda>r. length r = length (columns df)) (rows df)"

text \<open>Exceptions, all of them subclasses of Python's \<^verbatim>\<open>Exception\<close>, with their message.\<close>

datatype exn =
    ValueError string
  | KeyError string
  | IndexError string
  | OSError string
  | HdfsError string

fun str_exn :: "exn \<Rightarrow> string" where
  "str_exn (ValueError m) = m"
| "str_exn (KeyError m) = m"
| "str_exn (IndexError m) = m"
| "str_exn (OSError m) = m"
| "str_exn (HdfsError m) = m"

section \<open>The pandas operations the transform calls\<close>

text \<open>The cells of a row that are not under one of the given column labels.\<close>

definition strip_row :: "string list \<Rightarrow> string list \<Rightarrow> cell list \<Rightarrow> cell list" where
  "strip_row cols labels r = map snd (filter (\<lambda>(c, v). c \<notin> set labels) (zip cols r))"

text \<open>
  \<^verbatim>\<open>df.drop(columns=labels)\<close>: a label that is no column raises KeyError; every column
  carrying one of the labels goes.
\<close>

definition df_drop :: "string list \<Rightarrow> dataframe \<Rightarrow> exn + dataframe" where
  "df_drop labels df =
     (if \<not> list_all (\<lambda>l. l \<in> set (columns df)) labels
      then Inl (KeyError ''not found in axis'')
      else Inr (df\<lparr>columns := filter (\<lambda>c. c \<notin> set labels) (columns df),
                   rows := map (strip_row (columns df) labels) (rows df)\<rparr>))"

text \<open>
  \<^verbatim>\<open>df.dropna()\<close>: the rows holding a missing value in any column go, the others keep
  their order and their index label.
\<close>

definition df_dropna :: "dataframe \<Rightarrow> dataframe" where
  "df_dropna df =
     (let kept = filter (\<lambda>(l, r). \<not> list_ex isna r) (zip (index df) (rows df))
      in df\<lparr>index := map fst kept, rows := map snd kept\<rparr>)"

text \<open>
  \<^verbatim>\<open>df.insert(loc, column, values)\<close> with the default \<^verbatim>\<open>allow_duplicates=False\<close>: an
  existing column label raises ValueError, as does a value list that is not as long as
  the index; the values are taken by position.
\<close>

definition df_insert :: "nat \<Rightarrow> string \<Rightarrow> cell list \<Rightarrow> dataframe \<Rightarrow> exn + dataframe" where
  "df_insert loc column vals df =
     (if column \<in> set (columns df)
      then Inl (ValueError (''cannot insert '' @ column @ '', already exists''))
      else if length vals \<noteq> len df
      then Inl (ValueError ''Length of values does not match length of index'')
      else if length (columns df) < loc
      then Inl (IndexError ''index is out of bounds'')
      else Inr (df\<lparr>columns := take loc (columns df) @ column # drop loc (columns df),
                   rows := map2 (\<lambda>v r. take loc r @ v # drop loc r) vals (rows df)\<rparr>))"

text \<open>\<^verbatim>\<open>range(a, b)\<close>, as the cells pandas makes of it.\<close>

definition py_range :: "nat \<Rightarrow> nat \<Rightarrow> cell list" where
  "py_range a b = map (\<lambda>k. IntV (int k)) [a..<b]"

text \<open>
  A CSV file, as the fields of its lines: the header line when there is one, then one
  record per row. \<^verbatim>\<open>df.to_csv(path, header=h, index=i)\<close> writes the column labels when
  \<open>h\<close>, and puts the index label in front of every record (an empty field in front of the
  header) when \<open>i\<close>.
\<close>

record csv =
  header :: "string list option"
  records :: "cell list list"

definition df_to_csv :: "dataframe \<Rightarrow> bool \<Rightarrow> bool \<Rightarrow> csv" where
  "df_to_csv df h i =
     \<lparr>header = (if h then Some ((if i then [[]] else []) @ columns df) else None),
      records = (if i then map2 (\<lambda>l r. IntV l # r) (index df) (rows df) else rows df)\<rparr>"

text \<open>The column of a frame under a label: per row, the cell of the first such column.\<close>

definition df_column :: "dataframe \<Rightarrow> string \<Rightarrow> cell option list" where
  "df_column df c = map (\<lambda>r. map_of (zip (columns df) r) c) (rows df)"

section \<open>Paths and strings\<close>

definition OUTPUT_FILE :: string where
  "OUTPUT_FILE = ''/opt/airflow/outputData/Real_Estate_Sales_Cleaned.csv''"

definition HDFS_PATH :: string where
  "HDFS_PATH = ''/user/hive/warehouse/real_estate/real_estate_sales.csv''"

text \<open>
  \<^verbatim>\<open>os.path.dirname\<close> (posixpath): the path up to its last slash, without trailing slashes
  unless it is made of slashes only.
\<close>

definition dirname :: "string \<Rightarrow> string" where
  "dirname p =
     (let head = rev (dropWhile (\<lambda>c. c \<noteq> CHR ''/'') (rev p))
      in if head \<noteq> [] \<and> \<not> list_all (\<lambda>c. c = CHR ''/'') head
         then rev (dropWhile (\<lambda>c. c = CHR ''/'') (rev head))
         else head)"

text \<open>The decimal digits of a natural number, as an f-string prints it.\<close>

fun str_nat :: "nat \<Rightarrow> string" where
  "str_nat n =
     (if n < 10 then [''0123456789'' ! n]
      else str_nat (n div 10) @ [''0123456789'' ! (n mod 10)])"

declare str_nat.simps [simp del]

section \<open>The world the stages run in\<close>

text \<open>
  The stages share the XCom store (keyed by task id and key), the local files and, for
  the loader, the standard output and the calls made on the HDFS client. What the
  libraries and services outside the repository answer is a parameter: the JSON codec
  of pandas, the local file system and the HDFS client, each call returning normally
  or raising.
\<close>

datatype hdfs_call =
    Makedirs string
  | Write string csv bool
  | Status string

record world =
  xcom :: "string \<times> string \<Rightarrow> string option"
  files :: "string \<Rightarrow> csv option"
  stdout :: "string list"
  hdfs_calls :: "hdfs_call list"

record env =
  read_json :: "string \<Rightarrow> exn + dataframe"
  to_json :: "dataframe \<Rightarrow> exn + string"
  os_makedirs :: "string \<Rightarrow> exn option"
  open_write :: "string \<Rightarrow> exn option"
  hdfs_makedirs :: "string \<Rightarrow> exn option"
  hdfs_write :: "string \<Rightarrow> csv \<Rightarrow> bool \<Rightarrow> exn option"
  hdfs_status :: "string \<Rightarrow> exn + nat"

definition py_print :: "string \<Rightarrow> world \<Rightarrow> world" where
  "py_print s w = w\<lparr>stdout := stdout w @ [s]\<rparr>"

definition client_call :: "hdfs_call \<Rightarrow> world \<Rightarrow> world" where
  "client_call c w = w\<lparr>hdfs_calls := hdfs_calls w @ [c]\<rparr>"

section \<open>The transform stage\<close>

text \<open>
  Lines 54 to 65 of \<^verbatim>\<open>transform_data\<close>, the cleaning steps on the frame read from the
  payload: drop the column \<^verbatim>\<open>Residential Type\<close> when there is one, drop the rows with a
  missing value, insert \<^verbatim>\<open>SaleID\<close> at position 0 with \<^verbatim>\<open>range(1, len(df) + 1)\<close>.
\<close>

definition cleaning_steps :: "dataframe \<Rightarrow> exn + dataframe" where
  "cleaning_steps df =
     (case (if ''Residential Type'' \<in> set (columns df)
            then df_drop [''Residential Type''] df else Inr df) of
        Inl e \<Rightarrow> Inl e
      | Inr df1 \<Rightarrow>
          (let df2 = df_dropna df1
           in df_insert 0 ''SaleID'' (py_range 1 (len df2 + 1)) df2))"

text \<open>
  \<^verbatim>\<open>transform_data\<close>: pull the payload of \<^verbatim>\<open>Extract_Data\<close>; a payload that is None or
  empty raises ValueError before anything else happens. Otherwise decode it, clean the
  frame, create the output directory, write the CSV with \<^verbatim>\<open>index=False\<close>, push the
  frame as JSON and return the message. The progress lines this stage prints are left
  out.
\<close>

definition transform_data :: "env \<Rightarrow> world \<Rightarrow> (exn + string) \<times> world" where
  "transform_data env w =
     (case xcom w (''Extract_Data'', ''raw_data'') of
        None \<Rightarrow> (Inl (ValueError ''No data received from Extract_Data task via XCom''), w)
      | Some raw_data_json \<Rightarrow>
          if raw_data_json = []
          then (Inl (ValueError ''No data received from Extract_Data task via XCom''), w)
          else
            (case read_json env raw_data_json of
               Inl e \<Rightarrow> (Inl e, w)
             | Inr df0 \<Rightarrow>
                 (case cleaning_steps df0 of
                    Inl e \<Rightarrow> (Inl e, w)
                  | Inr df \<Rightarrow>
                      (case os_makedirs env (dirname OUTPUT_FILE) of
                         Some e \<Rightarrow> (Inl e, w)
                       | None \<Rightarrow>
                           (case open_write env OUTPUT_FILE of
                              Some e \<Rightarrow> (Inl e, w)
                            | None \<Rightarrow>
                                (let w1 = w\<lparr>files := (files w)(OUTPUT_FILE \<mapsto> df_to_csv df True False)\<rparr>
                                 in case to_json env df of
                                      Inl e \<Rightarrow> (Inl e, w1)
                                    | Inr js \<Rightarrow>
                                        (Inr (''Transformed '' @ str_nat (len df) @ '' rows successfully''),
                                         w1\<lparr>xcom := (xcom w1)((''Transform_Data'', ''transformed_data'') \<mapsto> js)\<rparr>)))))))"

section \<open>The load stage\<close>

text \<open>
  The body of the second \<^verbatim>\<open>try\<close> of \<^verbatim>\<open>load_to_hdfs\<close>: open the local output file
  (FileNotFoundError, with the path in single quotes, when it is not there), write it to
  HDFS with \<^verbatim>\<open>overwrite=True\<close>, ask for the status of the uploaded file and print its
  length.
\<close>

definition upload :: "env \<Rightarrow> world \<Rightarrow> (exn + unit) \<times> world" where
  "upload env w =
     (case files w OUTPUT_FILE of
        None \<Rightarrow>
          (Inl (OSError (''[Errno 2] No such file or directory: '' @
             [CHR 0x27] @ OUTPUT_FILE @ [CHR 0x27])), w)
      | Some f \<Rightarrow>
          (let w1 = client_call (Write HDFS_PATH f True) w
           in case hdfs_write env HDFS_PATH f True of
                Some e \<Rightarrow> (Inl e, w1)
              | None \<Rightarrow>
                  (let w2 = py_print (''Successfully uploaded to HDFS: '' @ HDFS_PATH) w1;
                       w3 = client_call (Status HDFS_PATH) w2
                   in case hdfs_status env HDFS_PATH of
                        Inl e \<Rightarrow> (Inl e, w3)
                      | Inr n \<Rightarrow>
                          (Inr (), py_print (''File size in HDFS: '' @ str_nat n @ '' bytes'') w3))))"

text \<open>
  \<^verbatim>\<open>load_to_hdfs\<close>: the first \<^verbatim>\<open>try\<close> prints what \<^verbatim>\<open>makedirs\<close> raises and goes on; the
  second prints what the upload raises and raises it again.
\<close>

definition load_to_hdfs :: "env \<Rightarrow> world \<Rightarrow> (exn + string) \<times> world" where
  "load_to_hdfs env w =
     (let w1 = py_print ''Starting data load to HDFS...'' w;
          w2 = py_print (''Uploading '' @ OUTPUT_FILE @ '' to HDFS path '' @ HDFS_PATH) w1;
          hdfs_dir = dirname HDFS_PATH;
          w3 = client_call (Makedirs hdfs_dir) w2;
          w4 = (case hdfs_makedirs env hdfs_dir of
                  None \<Rightarrow> py_print (''Created directory: '' @ hdfs_dir) w3
                | Some e \<Rightarrow>
                    py_print (''Directory '' @ hdfs_dir @ '' may already exist: '' @ str_exn e) w3)
      in case upload env w4 of
           (Inl e, w5) \<Rightarrow> (Inl e, py_print (''Error uploading to HDFS: '' @ str_exn e) w5)
         | (Inr u, w5) \<Rightarrow> (Inr (''Loaded data to HDFS: '' @ HDFS_PATH), w5))"

section \<open>The handoff payload\<close>








section \<open>Sample inputs\<close>

text \<open>
  The scenario of the specification's testable properties: five rows, one of them with a
  missing \<^verbatim>\<open>Town\<close>, a \<^verbatim>\<open>Residential Type\<close> column present (and missing in two rows that
  are otherwise complete).
\<close>

definition sample_frame :: dataframe where
  "sample_frame =
     \<lparr>columns = [''Town'', ''Residential Type'', ''Sale_Amount''],
      index = [0, 1, 2, 3, 4],
      rows = [[StrV ''Ansonia'', StrV ''Condo'', IntV 325000],
              [StrV ''Avon'', NA, IntV 430000],
              [NA, StrV ''Single Family'', IntV 179900],
              [StrV ''Berlin'', StrV ''Single Family'', FloatV 5 (- 1)],
              [StrV ''Bethel'', NA, IntV 500]]\<rparr>"

text \<open>A frame that is already clean: no \<^verbatim>\<open>Residential Type\<close>, no missing value.\<close>

definition clean_frame :: dataframe where
  "clean_frame =
     \<lparr>columns = [''Town'', ''Sale_Amount''],
      index = [0, 1],
      rows = [[StrV ''Ansonia'', IntV 325000],
              [StrV ''Avon'', IntV 430000]]\<rparr>"

text \<open>A frame without rows, and a frame whose rows all have a missing value.\<close>

definition empty_frame :: dataframe where
  "empty_frame =
     \<lparr>columns = [''Town'', ''Residential Type'', ''Sale_Amount''], index = [], rows = []\<rparr>"

definition null_frame :: dataframe where
  "null_frame =
     \<lparr>columns = [''Town'', ''Residential Type'', ''Sale_Amount''],
      index = [0, 1],
      rows = [[NA, StrV ''Condo'', IntV 325000],
              [StrV ''Avon'', StrV ''Condo'', NA]]\<rparr>"

text \<open>
  Services that answer: a decoder that knows three payloads, an encoder, a local file
  system that lets the stage write, and an HDFS client whose \<^verbatim>\<open>makedirs\<close> raises (the
  directory is there) while the upload and the status call go through. A world holding
  the given payload of \<^verbatim>\<open>Extract_Data\<close> and nothing else.
\<close>

definition sample_env :: env where
  "sample_env =
     \<lparr>read_json = (\<lambda>s. if s = ''sample'' then Inr sample_frame
                       else if s = ''empty'' then Inr empty_frame
                       else if s = ''null'' then Inr null_frame
                       else Inl (ValueError ''Expected object or value'')),
      to_json = (\<lambda>df. Inr ''json''),
      os_makedirs = (\<lambda>p. None),
      open_write = (\<lambda>p. None),
      hdfs_makedirs = (\<lambda>p. Some (HdfsError ''File exists'')),
      hdfs_write = (\<lambda>p f overwrite. None),
      hdfs_status = (\<lambda>p. Inr 57)\<rparr>"

definition sample_world :: "string option \<Rightarrow> world" where
  "sample_world payload =
     \<lparr>xcom = (\<lambda>k. if k = (''Extract_Data'', ''raw_data'') then payload else None),
      files = (\<lambda>p. None),
      stdout = [],
      hdfs_calls = []\<rparr>"

text \<open>A world in which the transform has left a file at the output path.\<close>

definition sample_csv :: csv where
  "sample_csv = \<lparr>header = Some [''SaleID'', ''Town''], records = [[IntV 1, StrV ''Avon'']]\<rparr>"

definition loaded_world :: world where
  "loaded_world = \<lparr>xcom = (\<lambda>k. None), files = [OUTPUT_FILE \<mapsto> sample_csv], stdout = [], hdfs_calls = []\<rparr>"



section \<open>Facts about the frame operations\<close>

lemma strip_row_nths:
  "length r = length cols \<Longrightarrow>
   strip_row cols labels r = nths r {j. j < length cols \<and> cols ! j \<notin> set labels}"
proof (induction cols arbitrary: r)
  case Nil
  then show ?case by (simp add: strip_row_def)
next
  case (Cons c cols)
  then obtain v r' where r: "r = v # r'" "length r' = length cols"
    by (cases r) auto
  have "strip_row cols labels r' = nths r' {j. j < length cols \<and> cols ! j \<notin> set labels}"
    using Cons.IH r by simp
  then show ?case
    using r by (simp add: strip_row_def nths_Cons)
qed

lemma strip_row_same:
  "length r = length cols \<Longrightarrow> set labels \<inter> set cols = {} \<Longrightarrow> strip_row cols labels r = r"
  by (induction cols arbitrary: r) (auto simp: strip_row_def length_Suc_conv)

lemma list_ex_strip_row:
  "length r = length cols \<Longrightarrow>
   list_ex isna (strip_row cols labels r) \<longleftrightarrow>
   (\<exists>j<length cols. cols ! j \<notin> set labels \<and> isna (r ! j))"
proof (induction cols arbitrary: r)
  case Nil
  then show ?case by (simp add: strip_row_def)
next
  case (Cons c cols)
  then obtain v r' where r: "r = v # r'" "length r' = length cols"
    by (cases r) auto
  have IH: "list_ex isna (strip_row cols labels r') \<longleftrightarrow>
   (\<exists>j<length cols. cols ! j \<notin> set labels \<and> isna (r' ! j))"
    using Cons.IH r by simp
  show ?case
    using r IH by (auto simp: strip_row_def less_Suc_eq_0_disj)
qed

lemma length_py_range: "length (py_range a b) = b - a"
  by (simp add: py_range_def)

lemma map_tl_map2_Cons:
  "length vs = length rs \<Longrightarrow> map tl (map2 (\<lambda>v r. v # r) vs rs) = rs"
  by (induction vs rs rule: list_induct2) auto

lemma map_of_map2_Cons:
  "length vs = length rs \<Longrightarrow>
   map (\<lambda>r. map_of (zip (c # cs) r) c) (map2 (\<lambda>v r. v # r) vs rs) = map Some vs"
  by (induction vs rs rule: list_induct2) auto

lemma length_filter_zip_snd:
  "length xs = length ys \<Longrightarrow>
   length (filter (\<lambda>(x, y). P y) (zip xs ys)) = length (filter P ys)"
  by (induction xs ys rule: list_induct2) auto

lemma filter_neq_absent: "x \<notin> set xs \<Longrightarrow> filter (\<lambda>c. c \<noteq> x) xs = xs"
  by (induction xs) auto

lemma cleaning_steps_exists:
  "''SaleID'' \<in> set (columns df) \<Longrightarrow>
   cleaning_steps df = Inl (ValueError ''cannot insert SaleID, already exists'')"
  by (simp add: cleaning_steps_def df_drop_def df_dropna_def df_insert_def Let_def)

lemma cleaning_steps_columns:
  "cleaning_steps df = Inr out \<Longrightarrow>
   columns out = ''SaleID'' # filter (\<lambda>c. c \<noteq> ''Residential Type'') (columns df)"
  by (auto simp: cleaning_steps_def df_drop_def df_dropna_def df_insert_def Let_def
      filter_neq_absent split: if_splits)

lemma cleaning_steps_Inr:
  assumes sid: "''SaleID'' \<notin> set (columns df)" and rect: "rectangular df"
  shows "cleaning_steps df =
    Inr \<lparr>columns = ''SaleID'' # filter (\<lambda>c. c \<noteq> ''Residential Type'') (columns df),
         index = map fst (filter (\<lambda>(l, r). \<not> list_ex isna r)
           (zip (index df) (map (strip_row (columns df) [''Residential Type'']) (rows df)))),
         rows = map2 (\<lambda>v r. v # r)
           (py_range 1 (Suc (length (filter (\<lambda>(l, r). \<not> list_ex isna r)
             (zip (index df) (map (strip_row (columns df) [''Residential Type'']) (rows df)))))))
           (map snd (filter (\<lambda>(l, r). \<not> list_ex isna r)
             (zip (index df) (map (strip_row (columns df) [''Residential Type'']) (rows df)))))\<rparr>"
proof (cases "''Residential Type'' \<in> set (columns df)")
  case True
  then show ?thesis
    using sid
    by (simp add: cleaning_steps_def df_drop_def df_dropna_def df_insert_def Let_def
        len_def length_py_range)
next
  case False
  have "map (strip_row (columns df) [''Residential Type'']) (rows df) = rows df"
    using rect False
    by (intro map_idI strip_row_same) (auto simp: rectangular_def list_all_iff)
  then show ?thesis
    using sid False
    by (simp add: cleaning_steps_def df_dropna_def df_insert_def Let_def
        len_def length_py_range filter_neq_absent)
qed


lemma cleaning_steps_labelled:
  assumes sid: "''SaleID'' \<notin> set (columns df)" and rect: "rectangular df"
  shows "\<exists>out. cleaning_steps df = Inr out \<and>
    columns out = ''SaleID'' # filter (\<lambda>c. c \<noteq> ''Residential Type'') (columns df) \<and>
    length (index out) = length (rows out) \<and>
    zip (index out) (map tl (rows out)) =
      filter (\<lambda>(l, r). \<not> list_ex isna r)
        (zip (index df) (map (strip_row (columns df) [''Residential Type'']) (rows df))) \<and>
    df_column out ''SaleID'' = map (\<lambda>k. Some (IntV (int k))) [1..<Suc (length (rows out))]"
proof -
  define K where "K = filter (\<lambda>(l, r). \<not> list_ex isna r)
        (zip (index df) (map (strip_row (columns df) [''Residential Type'']) (rows df)))"
  define out where "out = \<lparr>columns = ''SaleID'' # filter (\<lambda>c. c \<noteq> ''Residential Type'') (columns df),
         index = map fst K,
         rows = map2 (\<lambda>v r. v # r) (py_range 1 (Suc (length K))) (map snd K)\<rparr>"
  have run: "cleaning_steps df = Inr out"
    unfolding out_def K_def by (rule cleaning_steps_Inr [OF sid rect])
  have lr: "length (py_range 1 (Suc (length K))) = length (map snd K)"
    by (simp add: length_py_range)
  have n: "length (rows out) = length K"
    by (simp add: out_def length_py_range)
  have tl: "map tl (rows out) = map snd K"
    unfolding out_def using map_tl_map2_Cons [OF lr] by simp
  have z: "zip (index out) (map tl (rows out)) = K"
    unfolding tl by (simp add: out_def zip_map_fst_snd)
  have col: "df_column out ''SaleID'' = map Some (py_range 1 (Suc (length K)))"
    unfolding df_column_def out_def using map_of_map2_Cons [OF lr] by simp
  have "df_column out ''SaleID'' = map (\<lambda>k. Some (IntV (int k))) [1..<Suc (length (rows out))]"
    unfolding col n by (simp add: py_range_def)
  moreover have "columns out = ''SaleID'' # filter (\<lambda>c. c \<noteq> ''Residential Type'') (columns df)"
    by (simp add: out_def)
  moreover have "length (index out) = length (rows out)"
    unfolding n by (simp add: out_def)
  ultimately show ?thesis
    using run z unfolding K_def by blast
qed

lemma kept_count:
  assumes rect: "rectangular df"
  shows "length (filter (\<lambda>(l, r). \<not> list_ex isna r)
           (zip (index df) (map (strip_row (columns df) labels) (rows df)))) =
         length (filter (\<lambda>r. \<not> (\<exists>j<length (columns df).
                   columns df ! j \<notin> set labels \<and> isna (r ! j))) (rows df))"
proof -
  let ?strip = "strip_row (columns df) labels"
  let ?miss = "\<lambda>r. \<exists>j<length (columns df). columns df ! j \<notin> set labels \<and> isna (r ! j)"
  have li: "length (index df) = length (map ?strip (rows df))"
    using rect by (simp add: rectangular_def)
  have ex: "list_ex isna (?strip r) \<longleftrightarrow> ?miss r" if "r \<in> set (rows df)" for r
    using rect that by (intro list_ex_strip_row) (simp add: rectangular_def list_all_iff)
  have same: "filter (\<lambda>r. \<not> list_ex isna (?strip r)) (rows df) = filter (\<lambda>r. \<not> ?miss r) (rows df)"
    by (rule filter_cong) (simp_all add: ex)
  have "length (filter (\<lambda>(l, r). \<not> list_ex isna r) (zip (index df) (map ?strip (rows df)))) =
        length (filter (\<lambda>r. \<not> list_ex isna r) (map ?strip (rows df)))"
    by (rule length_filter_zip_snd [OF li])
  also have "\<dots> = length (filter (\<lambda>r. \<not> list_ex isna (?strip r)) (rows df))"
    by (simp add: filter_map o_def)
  finally show ?thesis
    unfolding same .
qed

lemma cleaning_steps_succeeds:
  "''SaleID'' \<notin> set (columns df) \<Longrightarrow> \<exists>out. cleaning_steps df = Inr out"
  by (simp add: cleaning_steps_def df_drop_def df_dropna_def df_insert_def Let_def
      len_def length_py_range)

lemma strip_inserted:
  "length vs = length rs \<Longrightarrow> list_all (\<lambda>r. length r = length cols) rs \<Longrightarrow> c \<notin> set cols \<Longrightarrow>
   map (strip_row (c # cols) [c]) (map2 (\<lambda>v r. v # r) vs rs) = rs"
proof (induction vs rs rule: list_induct2)
  case Nil
  then show ?case by simp
next
  case (Cons v vs r rs)
  have "strip_row (c # cols) [c] (v # r) = strip_row cols [c] r"
    by (simp add: strip_row_def)
  also have "\<dots> = r"
    using Cons.prems by (intro strip_row_same) simp_all
  finally show ?case
    using Cons by simp
qed

lemma filter_zip_no_na:
  "\<not> list_ex (list_ex isna) rs \<Longrightarrow> filter (\<lambda>(l, r). \<not> list_ex isna r) (zip ls rs) = zip ls rs"
  by (rule filter_True) (auto simp: list_ex_iff dest: set_zip_rightD)

subsection \<open>Facts about the stages\<close>

lemma length_strip_row:
  "length r = length cols \<Longrightarrow>
   length (strip_row cols labels r) = length (filter (\<lambda>c. c \<notin> set labels) cols)"
  by (induction cols arbitrary: r) (auto simp: strip_row_def length_Suc_conv)

lemma cleaning_steps_rectangular:
  assumes rect: "rectangular df" and run: "cleaning_steps df = Inr out"
  shows "rectangular out"
proof -
  let ?strip = "strip_row (columns df) [''Residential Type'']"
  let ?K = "filter (\<lambda>(l, r). \<not> list_ex isna r) (zip (index df) (map ?strip (rows df)))"
  have sid: "''SaleID'' \<notin> set (columns df)"
    using run cleaning_steps_exists [of df] by auto
  have out: "out = \<lparr>columns = ''SaleID'' # filter (\<lambda>c. c \<noteq> ''Residential Type'') (columns df),
         index = map fst ?K,
         rows = map2 (\<lambda>v r. v # r) (py_range 1 (Suc (length ?K))) (map snd ?K)\<rparr>"
    using run unfolding cleaning_steps_Inr [OF sid rect] by simp
  have len: "length r = length (filter (\<lambda>c. c \<noteq> ''Residential Type'') (columns df))"
    if "r \<in> set (map snd ?K)" for r
  proof -
    from that obtain r0 where "r0 \<in> set (rows df)" and r: "r = ?strip r0"
      by (auto dest!: set_zip_rightD)
    then have "length r0 = length (columns df)"
      using rect by (simp add: rectangular_def list_all_iff)
    from length_strip_row [OF this, of "[''Residential Type'']"] show ?thesis
      unfolding r by simp
  qed
  have "length x = Suc (length (filter (\<lambda>c. c \<noteq> ''Residential Type'') (columns df)))"
    if "x \<in> set (map2 (\<lambda>v r. v # r) (py_range 1 (Suc (length ?K))) (map snd ?K))" for x
  proof -
    from that obtain v r where "x = v # r" and "r \<in> set (map snd ?K)"
      by (auto dest!: set_zip_rightD)
    then show ?thesis
      using len by simp
  qed
  then show ?thesis
    unfolding out by (simp add: rectangular_def list_all_iff length_py_range)
qed

lemma transform_data_run:
  assumes "xcom w (''Extract_Data'', ''raw_data'') = Some s" and "s \<noteq> []"
    and "read_json env s = Inr df" and "cleaning_steps df = Inr out"
    and "os_makedirs env (dirname OUTPUT_FILE) = None" and "open_write env OUTPUT_FILE = None"
    and "to_json env out = Inr js"
  shows "transform_data env w =
    (Inr (''Transformed '' @ str_nat (len out) @ '' rows successfully''),
     w\<lparr>files := (files w)(OUTPUT_FILE \<mapsto> df_to_csv out True False),
       xcom := (xcom w)((''Transform_Data'', ''transformed_data'') \<mapsto> js)\<rparr>)"
  using assms by (simp add: transform_data_def Let_def)

lemma transform_data_InrD:
  assumes "transform_data env w = (Inr msg, w')"
  shows "\<exists>s df out js. xcom w (''Extract_Data'', ''raw_data'') = Some s \<and> s \<noteq> [] \<and>
    read_json env s = Inr df \<and> cleaning_steps df = Inr out \<and>
    to_json env out = Inr js \<and>
    w' = w\<lparr>files := (files w)(OUTPUT_FILE \<mapsto> df_to_csv out True False),
           xcom := (xcom w)((''Transform_Data'', ''transformed_data'') \<mapsto> js)\<rparr>"
  using assms
  by (simp add: transform_data_def Let_def split: option.splits sum.splits if_splits)

lemma fst_load_to_hdfs:
  "fst (load_to_hdfs env w) =
     (case files w OUTPUT_FILE of
        None \<Rightarrow>
          Inl (OSError (''[Errno 2] No such file or directory: '' @
            [CHR 0x27] @ OUTPUT_FILE @ [CHR 0x27]))
      | Some f \<Rightarrow>
          (case hdfs_write env HDFS_PATH f True of
             Some e \<Rightarrow> Inl e
           | None \<Rightarrow>
               (case hdfs_status env HDFS_PATH of
                  Inl e \<Rightarrow> Inl e
                | Inr n \<Rightarrow> Inr (''Loaded data to HDFS: '' @ HDFS_PATH))))"
  by (simp add: load_to_hdfs_def upload_def py_print_def client_call_def Let_def
      split: option.split sum.split)

lemma hdfs_calls_load_to_hdfs:
  "hdfs_calls (snd (load_to_hdfs env w)) =
     hdfs_calls w @ Makedirs (dirname HDFS_PATH) #
       (case files w OUTPUT_FILE of
          None \<Rightarrow> []
        | Some f \<Rightarrow>
            Write HDFS_PATH f True #
              (case hdfs_write env HDFS_PATH f True of
                 Some e \<Rightarrow> []
               | None \<Rightarrow> [Status HDFS_PATH]))"
  by (simp add: load_to_hdfs_def upload_def py_print_def client_call_def Let_def
      split: option.split sum.split)

lemma stdout_makedirs_failed:
  "hdfs_makedirs env (dirname HDFS_PATH) = Some e \<Longrightarrow>
   (''Directory '' @ dirname HDFS_PATH @ '' may already exist: '' @ str_exn e)
     \<in> set (stdout (snd (load_to_hdfs env w)))"
  by (simp add: load_to_hdfs_def upload_def py_print_def client_call_def Let_def
      split: option.split sum.split)

lemma stdout_upload_failed:
  "fst (load_to_hdfs env w) = Inl e \<Longrightarrow>
   last (stdout (snd (load_to_hdfs env w))) = ''Error uploading to HDFS: '' @ str_exn e"
  by (auto simp: load_to_hdfs_def upload_def py_print_def client_call_def Let_def
      split: option.splits sum.splits)

lemma str_nat_0: "str_nat 0 = ''0''"
  by (simp add: str_nat.simps)

lemma cleaning_steps_all_missing:
  assumes rect: "rectangular df" and sid: "''SaleID'' \<notin> set (columns df)"
    and allmiss: "\<forall>r\<in>set (rows df). \<exists>j<length (columns df).
                    columns df ! j \<noteq> ''Residential Type'' \<and> isna (r ! j)"
  shows "cleaning_steps df =
    Inr \<lparr>columns = ''SaleID'' # filter (\<lambda>c. c \<noteq> ''Residential Type'') (columns df),
         index = [], rows = []\<rparr>"
proof -
  let ?strip = "strip_row (columns df) [''Residential Type'']"
  have "list_ex isna r" if "(l, r) \<in> set (zip (index df) (map ?strip (rows df)))" for l r
  proof -
    from that obtain r0 where r0: "r0 \<in> set (rows df)" and r: "r = ?strip r0"
      by (auto dest!: set_zip_rightD)
    have "length r0 = length (columns df)"
      using rect r0 by (simp add: rectangular_def list_all_iff)
    from list_ex_strip_row [OF this, of "[''Residential Type'']"] allmiss r0 show ?thesis
      unfolding r by simp
  qed
  then have "filter (\<lambda>(l, r). \<not> list_ex isna r) (zip (index df) (map ?strip (rows df))) = []"
    by (auto simp: filter_empty_conv)
  then show ?thesis
    unfolding cleaning_steps_Inr [OF sid rect] by (simp add: py_range_def)
qed

subsection \<open>The sample run\<close>

lemma sample_frame_cleaned:
  "cleaning_steps sample_frame =
     Inr \<lparr>columns = [''SaleID'', ''Town'', ''Sale_Amount''],
          index = [0, 1, 3, 4],
          rows = [[IntV 1, StrV ''Ansonia'', IntV 325000],
                  [IntV 2, StrV ''Avon'', IntV 430000],
                  [IntV 3, StrV ''Berlin'', FloatV 5 (- 1)],
                  [IntV 4, StrV ''Bethel'', IntV 500]]\<rparr>"
  by (simp add: sample_frame_def cleaning_steps_def df_drop_def df_dropna_def df_insert_def
      strip_row_def py_range_def len_def Let_def upt_rec)

lemma sample_transform:
  "fst (transform_data sample_env (sample_world (Some ''sample''))) =
     Inr ''Transformed 4 rows successfully''"
  by (simp add: transform_data_def sample_env_def sample_world_def sample_frame_cleaned
      len_def str_nat.simps)

subsection \<open>The cells under a column\<close>

lemma map_of_filter_key:
  "map_of (filter (\<lambda>(k, v). P k) xs) c = (if P c then map_of xs c else None)"
  by (induction xs) auto

lemma zip_filter_strip_row:
  "length r = length cols \<Longrightarrow>
   zip (filter (\<lambda>c. c \<notin> set labels) cols) (strip_row cols labels r) =
     filter (\<lambda>(c, v). c \<notin> set labels) (zip cols r)"
  by (induction cols arbitrary: r) (auto simp: strip_row_def length_Suc_conv)

lemma map_of_strip_row:
  assumes "length r = length cols" and "c \<notin> set labels"
  shows "map_of (zip (filter (\<lambda>c. c \<notin> set labels) cols) (strip_row cols labels r)) c =
         map_of (zip cols r) c"
  unfolding zip_filter_strip_row [OF assms(1)]
  using assms(2) map_of_filter_key [of "\<lambda>k. k \<notin> set labels" "zip cols r" c] by simp

lemma map_of_behind_inserted:
  "length vs = length rs \<Longrightarrow> c \<noteq> k \<Longrightarrow>
   map (\<lambda>r. map_of (zip (k # cs) r) c) (map2 (\<lambda>v r. v # r) vs rs) =
   map (\<lambda>r. map_of (zip cs r) c) rs"
  by (induction vs rs rule: list_induct2) auto

lemma zip_map_fst_map_snd:
  "zip (map fst xs) (map (g \<circ> snd) xs) = map (\<lambda>(l, r). (l, g r)) xs"
  by (induction xs) auto

lemma cleaning_steps_column:
  assumes sid: "''SaleID'' \<notin> set (columns df)" and rect: "rectangular df"
    and run: "cleaning_steps df = Inr out"
    and c: "c \<in> set (columns df)" "c \<noteq> ''Residential Type''"
  shows "zip (index out) (df_column out c) =
         map (\<lambda>(l, r). (l, map_of (zip (columns df) r) c))
           (filter (\<lambda>(l, r). \<not> (\<exists>j<length (columns df).
                      columns df ! j \<noteq> ''Residential Type'' \<and> isna (r ! j)))
             (zip (index df) (rows df)))"
proof -
  let ?strip = "strip_row (columns df) [''Residential Type'']"
  let ?cols = "filter (\<lambda>c. c \<noteq> ''Residential Type'') (columns df)"
  let ?miss = "\<lambda>r. \<exists>j<length (columns df). columns df ! j \<noteq> ''Residential Type'' \<and> isna (r ! j)"
  let ?K = "filter (\<lambda>(l, r). \<not> list_ex isna r) (zip (index df) (map ?strip (rows df)))"
  let ?vals = "py_range 1 (Suc (length ?K))"
  have out: "out = \<lparr>columns = ''SaleID'' # ?cols, index = map fst ?K,
         rows = map2 (\<lambda>v r. v # r) ?vals (map snd ?K)\<rparr>"
    using run unfolding cleaning_steps_Inr [OF sid rect] by simp
  have lr: "length r = length (columns df)" if "(l, r) \<in> set (zip (index df) (rows df))" for l r
    using rect set_zip_rightD [OF that] by (simp add: rectangular_def list_all_iff)
  have neq: "c \<noteq> ''SaleID''"
    using sid c by auto
  have lv: "length ?vals = length (map snd ?K)"
    by (simp add: length_py_range)
  have "df_column out c = map (\<lambda>r. map_of (zip ?cols r) c) (map snd ?K)"
    unfolding df_column_def out using map_of_behind_inserted [OF lv neq, of ?cols] by simp
  then have "zip (index out) (df_column out c) = map (\<lambda>(l, r). (l, map_of (zip ?cols r) c)) ?K"
    by (simp add: out zip_map_fst_map_snd)
  also have "?K = map (\<lambda>(l, r). (l, ?strip r))
      (filter (\<lambda>(l, r). \<not> list_ex isna (?strip r)) (zip (index df) (rows df)))"
    by (simp add: zip_map2 filter_map o_def split_def)
  also have "map (\<lambda>(l, r). (l, map_of (zip ?cols r) c)) \<dots> =
      map (\<lambda>(l, r). (l, map_of (zip ?cols (?strip r)) c))
        (filter (\<lambda>(l, r). \<not> list_ex isna (?strip r)) (zip (index df) (rows df)))"
    by (simp add: o_def split_def)
  also have "filter (\<lambda>(l, r). \<not> list_ex isna (?strip r)) (zip (index df) (rows df)) =
      filter (\<lambda>(l, r). \<not> ?miss r) (zip (index df) (rows df))"
  proof (rule filter_cong [OF refl])
    fix x assume x: "x \<in> set (zip (index df) (rows df))"
    obtain l r where p: "x = (l, r)" by (cases x)
    from list_ex_strip_row [OF lr [OF x [unfolded p]], of "[''Residential Type'']"]
    show "(case x of (l, r) \<Rightarrow> \<not> list_ex isna (?strip r)) = (case x of (l, r) \<Rightarrow> \<not> ?miss r)"
      unfolding p by simp
  qed
  also have "map (\<lambda>(l, r). (l, map_of (zip ?cols (?strip r)) c))
        (filter (\<lambda>(l, r). \<not> ?miss r) (zip (index df) (rows df))) =
      map (\<lambda>(l, r). (l, map_of (zip (columns df) r) c))
        (filter (\<lambda>(l, r). \<not> ?miss r) (zip (index df) (rows df)))"
  proof (rule map_cong [OF refl])
    fix x assume "x \<in> set (filter (\<lambda>(l, r). \<not> ?miss r) (zip (index df) (rows df)))"
    then have x: "x \<in> set (zip (index df) (rows df))" by simp
    obtain l r where p: "x = (l, r)" by (cases x)
    from map_of_strip_row [OF lr [OF x [unfolded p]], of c "[''Residential Type'']"] c(2)
    show "(case x of (l, r) \<Rightarrow> (l, map_of (zip ?cols (?strip r)) c)) =
          (case x of (l, r) \<Rightarrow> (l, map_of (zip (columns df) r) c))"
      unfolding p by simp
  qed
  finally show ?thesis .
qed

subsection \<open>Facts about the payload\<close>






section \<open>The claims\<close>

text \<open>
  C1. The cleaning steps run on every rectangular frame without a \<^verbatim>\<open>SaleID\<close> column, and
  the frame they produce has as many rows as the input minus the rows with a missing
  value in a column other than \<^verbatim>\<open>Residential Type\<close>. A row whose missing values all lie
  in \<^verbatim>\<open>Residential Type\<close> is kept: it stands in the output, under its index label, with
  its remaining cells.
\<close>

theorem C1_row_count:
  assumes rect: "rectangular df" and sid: "''SaleID'' \<notin> set (columns df)"
  shows "\<exists>out. cleaning_steps df = Inr out \<and>
    length (rows out) = length (rows df) -
      length (filter (\<lambda>r. \<exists>j<length (columns df).
                columns df ! j \<noteq> ''Residential Type'' \<and> isna (r ! j)) (rows df)) \<and>
    (\<forall>i<length (rows df).
       (\<forall>j<length (columns df). isna (rows df ! i ! j) \<longrightarrow> columns df ! j = ''Residential Type'') \<longrightarrow>
       (index df ! i, strip_row (columns df) [''Residential Type''] (rows df ! i))
         \<in> set (zip (index out) (map tl (rows out))))"
proof -
  let ?strip = "strip_row (columns df) [''Residential Type'']"
  let ?miss = "\<lambda>r. \<exists>j<length (columns df). columns df ! j \<noteq> ''Residential Type'' \<and> isna (r ! j)"
  let ?K = "filter (\<lambda>(l, r). \<not> list_ex isna r) (zip (index df) (map ?strip (rows df)))"
  from cleaning_steps_labelled [OF sid rect] obtain out where
    run: "cleaning_steps df = Inr out" and
    bal: "length (index out) = length (rows out)" and
    z: "zip (index out) (map tl (rows out)) = ?K"
    by blast
  have li: "length (index df) = length (rows df)"
    using rect by (simp add: rectangular_def)
  have lr: "length r = length (columns df)" if "r \<in> set (rows df)" for r
    using rect that by (simp add: rectangular_def list_all_iff)
  have ex: "list_ex isna (?strip r) \<longleftrightarrow> ?miss r" if "r \<in> set (rows df)" for r
    using list_ex_strip_row [OF lr [OF that], of "[''Residential Type'']"] by simp
  have "length (rows out) = length (zip (index out) (map tl (rows out)))"
    using bal by simp
  also have "\<dots> = length (filter (\<lambda>r. \<not> list_ex isna r) (map ?strip (rows df)))"
    unfolding z using li by (simp add: length_filter_zip_snd)
  also have "\<dots> = length (filter (\<lambda>r. \<not> list_ex isna (?strip r)) (rows df))"
    by (simp add: filter_map o_def)
  also have "\<dots> = length (filter (\<lambda>r. \<not> ?miss r) (rows df))"
  proof -
    have "filter (\<lambda>r. \<not> list_ex isna (?strip r)) (rows df) = filter (\<lambda>r. \<not> ?miss r) (rows df)"
      by (rule filter_cong) (simp_all add: ex)
    then show ?thesis by simp
  qed
  also have "\<dots> = length (rows df) - length (filter ?miss (rows df))"
    using sum_length_filter_compl [of ?miss "rows df"] by simp
  finally have count: "length (rows out) = length (rows df) - length (filter ?miss (rows df))" .
  have keep: "(index df ! i, ?strip (rows df ! i)) \<in> set (zip (index out) (map tl (rows out)))"
    if i: "i < length (rows df)"
      and only: "\<forall>j<length (columns df). isna (rows df ! i ! j) \<longrightarrow> columns df ! j = ''Residential Type''"
    for i
  proof -
    have "\<not> ?miss (rows df ! i)"
      using only by blast
    then have "\<not> list_ex isna (?strip (rows df ! i))"
      using ex i by simp
    moreover have "(index df ! i, ?strip (rows df ! i)) \<in> set (zip (index df) (map ?strip (rows df)))"
      using i li by (auto simp: in_set_zip)
    ultimately show ?thesis
      unfolding z by simp
  qed
  show ?thesis
  proof (intro exI conjI allI impI)
    show "cleaning_steps df = Inr out" by (rule run)
    show "length (rows out) = length (rows df) - length (filter ?miss (rows df))" by (rule count)
  next
    fix i
    assume "i < length (rows df)"
      and "\<forall>j<length (columns df). isna (rows df ! i ! j) \<longrightarrow> columns df ! j = ''Residential Type''"
    then show "(index df ! i, ?strip (rows df ! i)) \<in> set (zip (index out) (map tl (rows out)))"
      by (rule keep)
  qed
qed

theorem C1_row_count_witness:
  "rectangular sample_frame \<and> ''SaleID'' \<notin> set (columns sample_frame) \<and>
   (\<exists>out. cleaning_steps sample_frame = Inr out \<and> length (rows out) = 5 - 1 \<and>
      (1, [StrV ''Avon'', IntV 430000]) \<in> set (zip (index out) (map tl (rows out))))"
proof -
  have r: "rectangular sample_frame"
    by (simp add: sample_frame_def rectangular_def)
  have s: "''SaleID'' \<notin> set (columns sample_frame)"
    by (simp add: sample_frame_def)
  from C1_row_count [OF r s] obtain out where
    run: "cleaning_steps sample_frame = Inr out" and
    count: "length (rows out) = length (rows sample_frame) -
      length (filter (\<lambda>r. \<exists>j<length (columns sample_frame).
                columns sample_frame ! j \<noteq> ''Residential Type'' \<and> isna (r ! j)) (rows sample_frame))" and
    keep: "\<forall>i<length (rows sample_frame).
       (\<forall>j<length (columns sample_frame). isna (rows sample_frame ! i ! j) \<longrightarrow>
           columns sample_frame ! j = ''Residential Type'') \<longrightarrow>
       (index sample_frame ! i, strip_row (columns sample_frame) [''Residential Type''] (rows sample_frame ! i))
         \<in> set (zip (index out) (map tl (rows out)))"
    by blast
  have c: "length (rows out) = 5 - 1"
    using count by (simp add: sample_frame_def Ex_less_Suc)
  have "(1, [StrV ''Avon'', IntV 430000]) \<in> set (zip (index out) (map tl (rows out)))"
    using spec [OF keep, of 1]
    by (simp add: sample_frame_def All_less_Suc strip_row_def)
  then show ?thesis
    using r s run c by blast
qed

text \<open>
  C2. On every rectangular frame without a \<^verbatim>\<open>SaleID\<close> column the cleaning steps produce
  a frame whose \<^verbatim>\<open>SaleID\<close> column is the list 1, 2, ..., N, where N is the number of its
  rows, that is the number of input rows without a missing value outside
  \<^verbatim>\<open>Residential Type\<close>: the row at position k (from 0) carries k + 1, and no value
  occurs twice.
\<close>

theorem C2_sale_ids:
  assumes rect: "rectangular df" and sid: "''SaleID'' \<notin> set (columns df)"
  shows "\<exists>out. cleaning_steps df = Inr out \<and>
    length (rows out) =
      length (filter (\<lambda>r. \<not> (\<exists>j<length (columns df).
                columns df ! j \<noteq> ''Residential Type'' \<and> isna (r ! j))) (rows df)) \<and>
    df_column out ''SaleID'' = map (\<lambda>k. Some (IntV (int k))) [1..<Suc (length (rows out))] \<and>
    distinct (df_column out ''SaleID'') \<and>
    (\<forall>k<length (rows out). df_column out ''SaleID'' ! k = Some (IntV (int k + 1)))"
proof -
  from cleaning_steps_labelled [OF sid rect] obtain out where
    run: "cleaning_steps df = Inr out" and
    bal: "length (index out) = length (rows out)" and
    z: "zip (index out) (map tl (rows out)) =
      filter (\<lambda>(l, r). \<not> list_ex isna r)
        (zip (index df) (map (strip_row (columns df) [''Residential Type'']) (rows df)))" and
    col: "df_column out ''SaleID'' = map (\<lambda>k. Some (IntV (int k))) [1..<Suc (length (rows out))]"
    by blast
  have "length (rows out) = length (zip (index out) (map tl (rows out)))"
    using bal by simp
  also have "\<dots> = length (filter (\<lambda>r. \<not> (\<exists>j<length (columns df).
                columns df ! j \<noteq> ''Residential Type'' \<and> isna (r ! j))) (rows df))"
    unfolding z using kept_count [OF rect, of "[''Residential Type'']"] by simp
  finally have count: "length (rows out) =
      length (filter (\<lambda>r. \<not> (\<exists>j<length (columns df).
                columns df ! j \<noteq> ''Residential Type'' \<and> isna (r ! j))) (rows df))" .
  have "inj_on (\<lambda>k. Some (IntV (int k))) (set [1..<Suc (length (rows out))])"
    by (rule inj_onI) simp
  then have dist: "distinct (df_column out ''SaleID'')"
    unfolding col by (simp add: distinct_map)
  have nth: "df_column out ''SaleID'' ! k = Some (IntV (int k + 1))" if "k < length (rows out)" for k
    unfolding col using that by (simp del: upt_Suc)
  show ?thesis
  proof (intro exI conjI allI impI)
    show "cleaning_steps df = Inr out" by (rule run)
    show "length (rows out) =
      length (filter (\<lambda>r. \<not> (\<exists>j<length (columns df).
                columns df ! j \<noteq> ''Residential Type'' \<and> isna (r ! j))) (rows df))"
      by (rule count)
    show "df_column out ''SaleID'' = map (\<lambda>k. Some (IntV (int k))) [1..<Suc (length (rows out))]"
      by (rule col)
    show "distinct (df_column out ''SaleID'')" by (rule dist)
  next
    fix k assume "k < length (rows out)"
    then show "df_column out ''SaleID'' ! k = Some (IntV (int k + 1))" by (rule nth)
  qed
qed

theorem C2_sale_ids_witness:
  "rectangular sample_frame \<and> ''SaleID'' \<notin> set (columns sample_frame) \<and>
   (\<exists>out. cleaning_steps sample_frame = Inr out \<and> length (rows out) = 4 \<and>
      df_column out ''SaleID'' = [Some (IntV 1), Some (IntV 2), Some (IntV 3), Some (IntV 4)])"
proof -
  have r: "rectangular sample_frame"
    by (simp add: sample_frame_def rectangular_def)
  have s: "''SaleID'' \<notin> set (columns sample_frame)"
    by (simp add: sample_frame_def)
  from C2_sale_ids [OF r s] obtain out where
    run: "cleaning_steps sample_frame = Inr out" and
    count: "length (rows out) =
      length (filter (\<lambda>r. \<not> (\<exists>j<length (columns sample_frame).
                columns sample_frame ! j \<noteq> ''Residential Type'' \<and> isna (r ! j))) (rows sample_frame))" and
    col: "df_column out ''SaleID'' = map (\<lambda>k. Some (IntV (int k))) [1..<Suc (length (rows out))]"
    by blast
  have c: "length (rows out) = 4"
    using count by (simp add: sample_frame_def Ex_less_Suc)
  have "[1..<Suc 4] = [1, 2, 3, 4]"
    by (simp add: upt_rec)
  then have "df_column out ''SaleID'' = [Some (IntV 1), Some (IntV 2), Some (IntV 3), Some (IntV 4)]"
    unfolding col c by simp
  then show ?thesis
    using r s run c by blast
qed

text \<open>
  C3. On every frame without a \<^verbatim>\<open>SaleID\<close> column the cleaning steps produce a frame
  that has no column \<^verbatim>\<open>Residential Type\<close>, and whose columns are \<^verbatim>\<open>SaleID\<close> followed by
  the other input columns under their names and in their order; when the input has no
  \<^verbatim>\<open>Residential Type\<close>, by all the input columns. On a rectangular input the output is
  rectangular, so every row has one cell per output column and none of the dropped
  column is left, and under each input column other than \<^verbatim>\<open>Residential Type\<close> the output
  holds, label by label, the cells the input holds under that column in the rows
  without a missing value outside \<^verbatim>\<open>Residential Type\<close>.
\<close>

theorem C3_columns:
  assumes sid: "''SaleID'' \<notin> set (columns df)"
  shows "\<exists>out. cleaning_steps df = Inr out \<and>
    ''Residential Type'' \<notin> set (columns out) \<and>
    columns out = ''SaleID'' # filter (\<lambda>c. c \<noteq> ''Residential Type'') (columns df) \<and>
    (''Residential Type'' \<notin> set (columns df) \<longrightarrow> columns out = ''SaleID'' # columns df) \<and>
    (rectangular df \<longrightarrow>
       rectangular out \<and>
       (\<forall>c\<in>set (columns df). c \<noteq> ''Residential Type'' \<longrightarrow>
          zip (index out) (df_column out c) =
            map (\<lambda>(l, r). (l, map_of (zip (columns df) r) c))
              (filter (\<lambda>(l, r). \<not> (\<exists>j<length (columns df).
                         columns df ! j \<noteq> ''Residential Type'' \<and> isna (r ! j)))
                (zip (index df) (rows df)))))"
proof -
  from cleaning_steps_succeeds [OF sid] obtain out where run: "cleaning_steps df = Inr out"
    by blast
  note cols = cleaning_steps_columns [OF run]
  have gone: "''Residential Type'' \<notin> set (columns out)"
    unfolding cols by simp
  have same: "columns out = ''SaleID'' # columns df" if "''Residential Type'' \<notin> set (columns df)"
    unfolding cols using that by (simp add: filter_neq_absent)
  have shape: "rectangular out" if "rectangular df"
    by (rule cleaning_steps_rectangular [OF that run])
  have cells: "zip (index out) (df_column out c) =
            map (\<lambda>(l, r). (l, map_of (zip (columns df) r) c))
              (filter (\<lambda>(l, r). \<not> (\<exists>j<length (columns df).
                         columns df ! j \<noteq> ''Residential Type'' \<and> isna (r ! j)))
                (zip (index df) (rows df)))"
    if "rectangular df" and "c \<in> set (columns df)" and "c \<noteq> ''Residential Type''" for c
    by (rule cleaning_steps_column [OF sid that(1) run that(2,3)])
  show ?thesis
  proof (intro exI conjI impI ballI)
    show "cleaning_steps df = Inr out" by (rule run)
    show "''Residential Type'' \<notin> set (columns out)" by (rule gone)
    show "columns out = ''SaleID'' # filter (\<lambda>c. c \<noteq> ''Residential Type'') (columns df)"
      by (rule cols)
  next
    assume "''Residential Type'' \<notin> set (columns df)"
    then show "columns out = ''SaleID'' # columns df" by (rule same)
  next
    assume "rectangular df"
    then show "rectangular out" by (rule shape)
  next
    fix c
    assume "rectangular df" and "c \<in> set (columns df)" and "c \<noteq> ''Residential Type''"
    then show "zip (index out) (df_column out c) =
            map (\<lambda>(l, r). (l, map_of (zip (columns df) r) c))
              (filter (\<lambda>(l, r). \<not> (\<exists>j<length (columns df).
                         columns df ! j \<noteq> ''Residential Type'' \<and> isna (r ! j)))
                (zip (index df) (rows df)))"
      by (rule cells)
  qed
qed

theorem C3_columns_witness:
  "''SaleID'' \<notin> set (columns sample_frame) \<and> rectangular sample_frame \<and>
   (\<exists>out. cleaning_steps sample_frame = Inr out \<and>
      ''Residential Type'' \<notin> set (columns out) \<and>
      columns out = [''SaleID'', ''Town'', ''Sale_Amount''] \<and>
      rectangular out \<and>
      zip (index out) (df_column out ''Town'') =
        [(0, Some (StrV ''Ansonia'')), (1, Some (StrV ''Avon'')),
         (3, Some (StrV ''Berlin'')), (4, Some (StrV ''Bethel''))] \<and>
      zip (index out) (df_column out ''Sale_Amount'') =
        [(0, Some (IntV 325000)), (1, Some (IntV 430000)),
         (3, Some (FloatV 5 (- 1))), (4, Some (IntV 500))]) \<and>
   ''SaleID'' \<notin> set (columns clean_frame) \<and>
   ''Residential Type'' \<notin> set (columns clean_frame) \<and>
   (\<exists>out. cleaning_steps clean_frame = Inr out \<and>
      columns out = ''SaleID'' # columns clean_frame)"
proof -
  let ?kept = "\<lambda>c. map (\<lambda>(l, r). (l, map_of (zip (columns sample_frame) r) c))
              (filter (\<lambda>(l, r). \<not> (\<exists>j<length (columns sample_frame).
                         columns sample_frame ! j \<noteq> ''Residential Type'' \<and> isna (r ! j)))
                (zip (index sample_frame) (rows sample_frame)))"
  have s: "''SaleID'' \<notin> set (columns sample_frame)"
    by (simp add: sample_frame_def)
  have r: "rectangular sample_frame"
    by (simp add: sample_frame_def rectangular_def)
  from C3_columns [OF s] r obtain out where
    run: "cleaning_steps sample_frame = Inr out" and
    no: "''Residential Type'' \<notin> set (columns out)" and
    cols: "columns out = ''SaleID'' # filter (\<lambda>c. c \<noteq> ''Residential Type'') (columns sample_frame)" and
    shape: "rectangular out" and
    cells: "\<forall>c\<in>set (columns sample_frame). c \<noteq> ''Residential Type'' \<longrightarrow>
          zip (index out) (df_column out c) = ?kept c"
    by blast
  have labels: "columns out = [''SaleID'', ''Town'', ''Sale_Amount'']"
    unfolding cols by (simp add: sample_frame_def)
  have "zip (index out) (df_column out ''Town'') = ?kept ''Town''"
    using cells by (simp add: sample_frame_def)
  then have town: "zip (index out) (df_column out ''Town'') =
        [(0, Some (StrV ''Ansonia'')), (1, Some (StrV ''Avon'')),
         (3, Some (StrV ''Berlin'')), (4, Some (StrV ''Bethel''))]"
    by (simp add: sample_frame_def Ex_less_Suc)
  have "zip (index out) (df_column out ''Sale_Amount'') = ?kept ''Sale_Amount''"
    using cells by (simp add: sample_frame_def)
  then have amount: "zip (index out) (df_column out ''Sale_Amount'') =
        [(0, Some (IntV 325000)), (1, Some (IntV 430000)),
         (3, Some (FloatV 5 (- 1))), (4, Some (IntV 500))]"
    by (simp add: sample_frame_def Ex_less_Suc)
  have first: "\<exists>out. cleaning_steps sample_frame = Inr out \<and>
      ''Residential Type'' \<notin> set (columns out) \<and>
      columns out = [''SaleID'', ''Town'', ''Sale_Amount''] \<and>
      rectangular out \<and>
      zip (index out) (df_column out ''Town'') =
        [(0, Some (StrV ''Ansonia'')), (1, Some (StrV ''Avon'')),
         (3, Some (StrV ''Berlin'')), (4, Some (StrV ''Bethel''))] \<and>
      zip (index out) (df_column out ''Sale_Amount'') =
        [(0, Some (IntV 325000)), (1, Some (IntV 430000)),
         (3, Some (FloatV 5 (- 1))), (4, Some (IntV 500))]"
    using run no labels shape town amount by blast
  have s': "''SaleID'' \<notin> set (columns clean_frame)"
    by (simp add: clean_frame_def)
  have t': "''Residential Type'' \<notin> set (columns clean_frame)"
    by (simp add: clean_frame_def)
  have second: "\<exists>out. cleaning_steps clean_frame = Inr out \<and>
      columns out = ''SaleID'' # columns clean_frame"
    using C3_columns [OF s'] t' by blast
  show ?thesis
    using s r first s' t' second by blast
qed

text \<open>
  C4. When the XCom store holds no payload of \<^verbatim>\<open>Extract_Data\<close>, \<^verbatim>\<open>transform_data\<close> raises
  the ValueError of line 49 and leaves the world as it was: no file is written; it does
  the same on a payload that is the empty string. When the payload is there and decodes to a frame without rows (and without a \<^verbatim>\<open>SaleID\<close>
  column), and the file system and the encoder answer, the stage returns normally, with
  the message for 0 rows.
\<close>

theorem C4_no_payload:
  "(xcom w (''Extract_Data'', ''raw_data'') = None \<longrightarrow>
      transform_data env w =
        (Inl (ValueError ''No data received from Extract_Data task via XCom''), w)) \<and>
   (xcom w (''Extract_Data'', ''raw_data'') = Some [] \<longrightarrow>
      transform_data env w =
        (Inl (ValueError ''No data received from Extract_Data task via XCom''), w)) \<and>
   (xcom w (''Extract_Data'', ''raw_data'') = Some s \<and> s \<noteq> [] \<and>
    read_json env s = Inr df \<and> index df = [] \<and> rows df = [] \<and>
    ''SaleID'' \<notin> set (columns df) \<and>
    os_makedirs env (dirname OUTPUT_FILE) = None \<and> open_write env OUTPUT_FILE = None \<and>
    to_json env \<lparr>columns = ''SaleID'' # filter (\<lambda>c. c \<noteq> ''Residential Type'') (columns df),
                index = [], rows = []\<rparr> = Inr js \<longrightarrow>
      fst (transform_data env w) = Inr ''Transformed 0 rows successfully'')"
proof (intro conjI impI)
  assume "xcom w (''Extract_Data'', ''raw_data'') = None"
  then show "transform_data env w =
        (Inl (ValueError ''No data received from Extract_Data task via XCom''), w)"
    by (simp add: transform_data_def)
next
  assume "xcom w (''Extract_Data'', ''raw_data'') = Some []"
  then show "transform_data env w =
        (Inl (ValueError ''No data received from Extract_Data task via XCom''), w)"
    by (simp add: transform_data_def)
next
  let ?out = "\<lparr>columns = ''SaleID'' # filter (\<lambda>c. c \<noteq> ''Residential Type'') (columns df),
                index = [], rows = []\<rparr>"
  assume a: "xcom w (''Extract_Data'', ''raw_data'') = Some s \<and> s \<noteq> [] \<and>
    read_json env s = Inr df \<and> index df = [] \<and> rows df = [] \<and>
    ''SaleID'' \<notin> set (columns df) \<and>
    os_makedirs env (dirname OUTPUT_FILE) = None \<and> open_write env OUTPUT_FILE = None \<and>
    to_json env ?out = Inr js"
  then have payload: "xcom w (''Extract_Data'', ''raw_data'') = Some s" "s \<noteq> []"
    and decoded: "read_json env s = Inr df"
    and none: "index df = []" "rows df = []"
    and sid: "''SaleID'' \<notin> set (columns df)"
    and fs: "os_makedirs env (dirname OUTPUT_FILE) = None" "open_write env OUTPUT_FILE = None"
    and enc: "to_json env ?out = Inr js"
    by simp_all
  have rect: "rectangular df"
    using none by (simp add: rectangular_def)
  have run: "cleaning_steps df = Inr ?out"
    using none by (intro cleaning_steps_all_missing [OF rect sid]) simp
  note transform_data_run [OF payload decoded run fs enc]
  then show "fst (transform_data env w) = Inr ''Transformed 0 rows successfully''"
    by (simp add: len_def str_nat_0)
qed

theorem C4_no_payload_witness:
  "xcom (sample_world None) (''Extract_Data'', ''raw_data'') = None \<and>
   transform_data sample_env (sample_world None) =
     (Inl (ValueError ''No data received from Extract_Data task via XCom''), sample_world None) \<and>
   files (snd (transform_data sample_env (sample_world None))) OUTPUT_FILE = None \<and>
   xcom (sample_world (Some [])) (''Extract_Data'', ''raw_data'') = Some [] \<and>
   transform_data sample_env (sample_world (Some [])) =
     (Inl (ValueError ''No data received from Extract_Data task via XCom''), sample_world (Some [])) \<and>
   xcom (sample_world (Some ''empty'')) (''Extract_Data'', ''raw_data'') = Some ''empty'' \<and>
   read_json sample_env ''empty'' = Inr empty_frame \<and>
   fst (transform_data sample_env (sample_world (Some ''empty''))) =
     Inr ''Transformed 0 rows successfully''"
proof -
  have n: "xcom (sample_world None) (''Extract_Data'', ''raw_data'') = None"
    by (simp add: sample_world_def)
  have p: "xcom (sample_world (Some ''empty'')) (''Extract_Data'', ''raw_data'') = Some ''empty'' \<and>
      ''empty'' \<noteq> [] \<and>
      read_json sample_env ''empty'' = Inr empty_frame \<and>
      index empty_frame = [] \<and> rows empty_frame = [] \<and>
      ''SaleID'' \<notin> set (columns empty_frame) \<and>
      os_makedirs sample_env (dirname OUTPUT_FILE) = None \<and>
      open_write sample_env OUTPUT_FILE = None \<and>
      to_json sample_env
        \<lparr>columns = ''SaleID'' # filter (\<lambda>c. c \<noteq> ''Residential Type'') (columns empty_frame),
         index = [], rows = []\<rparr> = Inr ''json''"
    by (simp add: sample_world_def sample_env_def empty_frame_def)
  have first: "transform_data sample_env (sample_world None) =
     (Inl (ValueError ''No data received from Extract_Data task via XCom''), sample_world None)"
    using C4_no_payload [of "sample_world None" sample_env] n by blast
  then have nofile: "files (snd (transform_data sample_env (sample_world None))) OUTPUT_FILE = None"
    by (simp add: sample_world_def)
  have e: "xcom (sample_world (Some [])) (''Extract_Data'', ''raw_data'') = Some []"
    by (simp add: sample_world_def)
  have blank: "transform_data sample_env (sample_world (Some [])) =
     (Inl (ValueError ''No data received from Extract_Data task via XCom''), sample_world (Some []))"
    using C4_no_payload [of "sample_world (Some [])" sample_env] e by blast
  have second: "fst (transform_data sample_env (sample_world (Some ''empty''))) =
     Inr ''Transformed 0 rows successfully''"
    using C4_no_payload [of "sample_world (Some ''empty'')" sample_env "''empty''" empty_frame "''json''"] p
    by blast
  show ?thesis
    using n first nofile e blank p second by blast
qed

text \<open>
  C5, as stated, fails: the output of the cleaning steps has a \<^verbatim>\<open>SaleID\<close> column, and
  on a frame with a \<^verbatim>\<open>SaleID\<close> column \<^verbatim>\<open>df.insert\<close> raises ValueError. Here the steps run
  on a clean frame of two rows and then on their own output.
\<close>

theorem C5_counterexample:
  "''Residential Type'' \<notin> set (columns clean_frame) \<and>
   \<not> list_ex (list_ex isna) (rows clean_frame) \<and>
   cleaning_steps clean_frame =
     Inr \<lparr>columns = [''SaleID'', ''Town'', ''Sale_Amount''], index = [0, 1],
          rows = [[IntV 1, StrV ''Ansonia'', IntV 325000], [IntV 2, StrV ''Avon'', IntV 430000]]\<rparr> \<and>
   cleaning_steps
     \<lparr>columns = [''SaleID'', ''Town'', ''Sale_Amount''], index = [0, 1],
      rows = [[IntV 1, StrV ''Ansonia'', IntV 325000], [IntV 2, StrV ''Avon'', IntV 430000]]\<rparr> =
     Inl (ValueError ''cannot insert SaleID, already exists'')"
  by (simp add: clean_frame_def cleaning_steps_def df_drop_def df_dropna_def df_insert_def
      py_range_def len_def Let_def upt_rec)

text \<open>
  C5, amended. On a rectangular frame with no \<^verbatim>\<open>Residential Type\<close> column, no \<^verbatim>\<open>SaleID\<close>
  column and no missing value, the cleaning steps keep every column, every row and every
  index label and only put \<^verbatim>\<open>SaleID\<close> = 1, ..., N in front (N the number of rows).
  Applied to their own output they raise ValueError, the column \<^verbatim>\<open>SaleID\<close> being there
  already; once \<^verbatim>\<open>SaleID\<close> is dropped from the output, which gives the input back, they
  produce the same output again, with the same \<^verbatim>\<open>SaleID\<close> values.
\<close>

theorem C5_clean_rerun:
  assumes rect: "rectangular df" and sid: "''SaleID'' \<notin> set (columns df)"
    and rt: "''Residential Type'' \<notin> set (columns df)"
    and clean: "\<not> list_ex (list_ex isna) (rows df)"
  shows "\<exists>out. cleaning_steps df = Inr out \<and>
    columns out = ''SaleID'' # columns df \<and>
    index out = index df \<and>
    map tl (rows out) = rows df \<and>
    df_column out ''SaleID'' = map (\<lambda>k. Some (IntV (int k))) [1..<Suc (length (rows df))] \<and>
    cleaning_steps out = Inl (ValueError ''cannot insert SaleID, already exists'') \<and>
    df_drop [''SaleID''] out = Inr df"
proof -
  let ?vals = "py_range 1 (Suc (length (rows df)))"
  define out where "out = \<lparr>columns = ''SaleID'' # columns df, index = index df,
    rows = map2 (\<lambda>v r. v # r) ?vals (rows df)\<rparr>"
  have li: "length (index df) = length (rows df)"
    using rect by (simp add: rectangular_def)
  have lr: "list_all (\<lambda>r. length r = length (columns df)) (rows df)"
    using rect by (simp add: rectangular_def)
  have lv: "length ?vals = length (rows df)"
    by (simp add: length_py_range)
  have strip: "map (strip_row (columns df) [''Residential Type'']) (rows df) = rows df"
    using lr rt by (intro map_idI strip_row_same) (auto simp: list_all_iff)
  have kept: "filter (\<lambda>(l, r). \<not> list_ex isna r) (zip (index df) (rows df)) = zip (index df) (rows df)"
    by (rule filter_zip_no_na [OF clean])
  have run: "cleaning_steps df = Inr out"
    unfolding cleaning_steps_Inr [OF sid rect] strip kept out_def
    using li by (simp add: filter_neq_absent [OF rt])
  have tls: "map tl (rows out) = rows df"
    unfolding out_def using map_tl_map2_Cons [OF lv] by simp
  have col: "df_column out ''SaleID'' = map (\<lambda>k. Some (IntV (int k))) [1..<Suc (length (rows df))]"
    unfolding df_column_def out_def using map_of_map2_Cons [OF lv, of "''SaleID''" "columns df"]
    by (simp add: py_range_def)
  have twice: "cleaning_steps out = Inl (ValueError ''cannot insert SaleID, already exists'')"
    by (rule cleaning_steps_exists) (simp add: out_def)
  have "map (strip_row (''SaleID'' # columns df) [''SaleID'']) (map2 (\<lambda>v r. v # r) ?vals (rows df)) = rows df"
    by (rule strip_inserted [OF lv lr sid])
  then have dropped: "df_drop [''SaleID''] out = Inr df"
    using sid by (simp add: df_drop_def out_def filter_neq_absent)
  show ?thesis
    using run tls col twice dropped by (intro exI [of _ out]) (simp add: out_def)
qed

theorem C5_clean_rerun_witness:
  "rectangular clean_frame \<and> ''SaleID'' \<notin> set (columns clean_frame) \<and>
   ''Residential Type'' \<notin> set (columns clean_frame) \<and>
   \<not> list_ex (list_ex isna) (rows clean_frame) \<and>
   (\<exists>out. cleaning_steps clean_frame = Inr out \<and>
      columns out = [''SaleID'', ''Town'', ''Sale_Amount''] \<and>
      df_column out ''SaleID'' = [Some (IntV 1), Some (IntV 2)] \<and>
      cleaning_steps out = Inl (ValueError ''cannot insert SaleID, already exists'') \<and>
      df_drop [''SaleID''] out = Inr clean_frame)"
proof -
  have r: "rectangular clean_frame"
    by (simp add: clean_frame_def rectangular_def)
  have s: "''SaleID'' \<notin> set (columns clean_frame)"
    by (simp add: clean_frame_def)
  have t: "''Residential Type'' \<notin> set (columns clean_frame)"
    by (simp add: clean_frame_def)
  have c: "\<not> list_ex (list_ex isna) (rows clean_frame)"
    by (simp add: clean_frame_def)
  from C5_clean_rerun [OF r s t c] obtain out where
    run: "cleaning_steps clean_frame = Inr out" and
    cols: "columns out = ''SaleID'' # columns clean_frame" and
    col: "df_column out ''SaleID'' =
      map (\<lambda>k. Some (IntV (int k))) [1..<Suc (length (rows clean_frame))]" and
    twice: "cleaning_steps out = Inl (ValueError ''cannot insert SaleID, already exists'')" and
    dropped: "df_drop [''SaleID''] out = Inr clean_frame"
    by blast
  have "columns out = [''SaleID'', ''Town'', ''Sale_Amount'']"
    unfolding cols by (simp add: clean_frame_def)
  moreover have "df_column out ''SaleID'' = [Some (IntV 1), Some (IntV 2)]"
    unfolding col by (simp add: clean_frame_def upt_rec)
  ultimately show ?thesis
    using r s t c run twice dropped by blast
qed




text \<open>
  C7. In \<^verbatim>\<open>load_to_hdfs\<close>, what the upload raises is what the stage raises: the exception
  of the HDFS write, and likewise the one of the status call after it, comes back as the
  stage's result, after the line \<^verbatim>\<open>Error uploading to HDFS\<close> is printed. What \<^verbatim>\<open>makedirs\<close>
  raises is printed and changes nothing in the result of the stage, which is the same
  whatever \<^verbatim>\<open>makedirs\<close> does: the write on the HDFS client is still called with the local
  file, and when write and status go through the stage returns normally.
\<close>

theorem C7_load_errors:
  "(files w OUTPUT_FILE = Some f \<and> hdfs_write env HDFS_PATH f True = Some e \<longrightarrow>
      fst (load_to_hdfs env w) = Inl e \<and>
      last (stdout (snd (load_to_hdfs env w))) = ''Error uploading to HDFS: '' @ str_exn e) \<and>
   (files w OUTPUT_FILE = Some f \<and> hdfs_write env HDFS_PATH f True = None \<and>
    hdfs_status env HDFS_PATH = Inl e \<longrightarrow>
      fst (load_to_hdfs env w) = Inl e) \<and>
   (hdfs_makedirs env (dirname HDFS_PATH) = Some e' \<longrightarrow>
      (''Directory '' @ dirname HDFS_PATH @ '' may already exist: '' @ str_exn e')
        \<in> set (stdout (snd (load_to_hdfs env w))) \<and>
      fst (load_to_hdfs env w) = fst (load_to_hdfs (env\<lparr>hdfs_makedirs := m\<rparr>) w) \<and>
      (files w OUTPUT_FILE = Some f \<longrightarrow>
         Write HDFS_PATH f True \<in> set (hdfs_calls (snd (load_to_hdfs env w)))) \<and>
      (files w OUTPUT_FILE = Some f \<and> hdfs_write env HDFS_PATH f True = None \<and>
       hdfs_status env HDFS_PATH = Inr n \<longrightarrow>
         fst (load_to_hdfs env w) = Inr (''Loaded data to HDFS: '' @ HDFS_PATH)))"
proof (intro conjI impI)
  assume a: "files w OUTPUT_FILE = Some f \<and> hdfs_write env HDFS_PATH f True = Some e"
  then show r: "fst (load_to_hdfs env w) = Inl e"
    by (simp add: fst_load_to_hdfs)
  show "last (stdout (snd (load_to_hdfs env w))) = ''Error uploading to HDFS: '' @ str_exn e"
    by (rule stdout_upload_failed [OF r])
next
  assume "files w OUTPUT_FILE = Some f \<and> hdfs_write env HDFS_PATH f True = None \<and>
    hdfs_status env HDFS_PATH = Inl e"
  then show "fst (load_to_hdfs env w) = Inl e"
    by (simp add: fst_load_to_hdfs)
next
  assume "hdfs_makedirs env (dirname HDFS_PATH) = Some e'"
  then show "(''Directory '' @ dirname HDFS_PATH @ '' may already exist: '' @ str_exn e')
        \<in> set (stdout (snd (load_to_hdfs env w)))"
    by (rule stdout_makedirs_failed)
next
  show "fst (load_to_hdfs env w) = fst (load_to_hdfs (env\<lparr>hdfs_makedirs := m\<rparr>) w)"
    by (simp add: fst_load_to_hdfs split: option.split sum.split)
next
  assume "files w OUTPUT_FILE = Some f"
  then show "Write HDFS_PATH f True \<in> set (hdfs_calls (snd (load_to_hdfs env w)))"
    by (simp add: hdfs_calls_load_to_hdfs)
next
  assume "files w OUTPUT_FILE = Some f \<and> hdfs_write env HDFS_PATH f True = None \<and>
       hdfs_status env HDFS_PATH = Inr n"
  then show "fst (load_to_hdfs env w) = Inr (''Loaded data to HDFS: '' @ HDFS_PATH)"
    by (simp add: fst_load_to_hdfs)
qed

theorem C7_load_errors_witness:
  "hdfs_makedirs sample_env (dirname HDFS_PATH) = Some (HdfsError ''File exists'') \<and>
   files loaded_world OUTPUT_FILE = Some sample_csv \<and>
   ''Directory /user/hive/warehouse/real_estate may already exist: File exists''
      \<in> set (stdout (snd (load_to_hdfs sample_env loaded_world))) \<and>
   Write HDFS_PATH sample_csv True \<in> set (hdfs_calls (snd (load_to_hdfs sample_env loaded_world))) \<and>
   fst (load_to_hdfs sample_env loaded_world) = Inr (''Loaded data to HDFS: '' @ HDFS_PATH) \<and>
   fst (load_to_hdfs (sample_env\<lparr>hdfs_write := \<lambda>p f overwrite. Some (HdfsError ''refused'')\<rparr>) loaded_world) =
     Inl (HdfsError ''refused'') \<and>
   fst (load_to_hdfs (sample_env\<lparr>hdfs_status := \<lambda>p. Inl (HdfsError ''gone'')\<rparr>) loaded_world) =
     Inl (HdfsError ''gone'')"
proof -
  let ?bad = "sample_env\<lparr>hdfs_write := \<lambda>p f overwrite. Some (HdfsError ''refused'')\<rparr>"
  let ?lost = "sample_env\<lparr>hdfs_status := \<lambda>p. Inl (HdfsError ''gone'')\<rparr>"
  have m: "hdfs_makedirs sample_env (dirname HDFS_PATH) = Some (HdfsError ''File exists'')"
    by (simp add: sample_env_def)
  have f: "files loaded_world OUTPUT_FILE = Some sample_csv"
    by (simp add: loaded_world_def)
  have up: "hdfs_write sample_env HDFS_PATH sample_csv True = None"
    "hdfs_status sample_env HDFS_PATH = Inr 57"
    by (simp_all add: sample_env_def)
  have d: "dirname HDFS_PATH = ''/user/hive/warehouse/real_estate''"
    by (simp add: dirname_def HDFS_PATH_def)
  note good = C7_load_errors [where w = loaded_world and f = sample_csv and env = sample_env
      and e' = "HdfsError ''File exists''" and n = 57]
  have line: "''Directory /user/hive/warehouse/real_estate may already exist: File exists''
      \<in> set (stdout (snd (load_to_hdfs sample_env loaded_world)))"
    using good m unfolding d by simp
  have attempted: "Write HDFS_PATH sample_csv True
      \<in> set (hdfs_calls (snd (load_to_hdfs sample_env loaded_world)))"
    using good m f by blast
  have loaded: "fst (load_to_hdfs sample_env loaded_world) = Inr (''Loaded data to HDFS: '' @ HDFS_PATH)"
    using good m f up by blast
  have w: "hdfs_write ?bad HDFS_PATH sample_csv True = Some (HdfsError ''refused'')"
    by simp
  have refused: "fst (load_to_hdfs ?bad loaded_world) = Inl (HdfsError ''refused'')"
    using C7_load_errors [where w = loaded_world and f = sample_csv and env = ?bad
      and e = "HdfsError ''refused''"] f w by blast
  have s: "hdfs_write ?lost HDFS_PATH sample_csv True = None"
    "hdfs_status ?lost HDFS_PATH = Inl (HdfsError ''gone'')"
    by (simp_all add: sample_env_def)
  have gone: "fst (load_to_hdfs ?lost loaded_world) = Inl (HdfsError ''gone'')"
    using C7_load_errors [where w = loaded_world and f = sample_csv and env = ?lost
      and e = "HdfsError ''gone''"] f s by blast
  show ?thesis
    using m f line attempted loaded refused gone by blast
qed

text \<open>
  C8. After every run of \<^verbatim>\<open>transform_data\<close> that returns normally, the file at the output
  path is the CSV of the cleaned frame: it has a header line, the header is the frame's
  column labels with \<^verbatim>\<open>SaleID\<close> first and nothing in front of it, and the records are the
  frame's rows with no index label in front; on a rectangular input every record has as
  many fields as the header.
\<close>

theorem C8_output_csv:
  assumes ok: "fst (transform_data env w) = Inr msg"
  shows "\<exists>s df out. xcom w (''Extract_Data'', ''raw_data'') = Some s \<and>
    read_json env s = Inr df \<and> cleaning_steps df = Inr out \<and>
    files (snd (transform_data env w)) OUTPUT_FILE =
      Some \<lparr>header = Some (columns out), records = rows out\<rparr> \<and>
    columns out = ''SaleID'' # filter (\<lambda>c. c \<noteq> ''Residential Type'') (columns df) \<and>
    (rectangular df \<longrightarrow> list_all (\<lambda>r. length r = length (columns out)) (rows out))"
proof -
  have "transform_data env w = (Inr msg, snd (transform_data env w))"
    using ok by (simp add: prod_eq_iff)
  from transform_data_InrD [OF this] obtain s df out js where
    payload: "xcom w (''Extract_Data'', ''raw_data'') = Some s" and
    decoded: "read_json env s = Inr df" and
    run: "cleaning_steps df = Inr out" and
    w': "snd (transform_data env w) =
      w\<lparr>files := (files w)(OUTPUT_FILE \<mapsto> df_to_csv out True False),
        xcom := (xcom w)((''Transform_Data'', ''transformed_data'') \<mapsto> js)\<rparr>"
    by blast
  have written: "files (snd (transform_data env w)) OUTPUT_FILE =
      Some \<lparr>header = Some (columns out), records = rows out\<rparr>"
    unfolding w' by (simp add: df_to_csv_def)
  have cols: "columns out = ''SaleID'' # filter (\<lambda>c. c \<noteq> ''Residential Type'') (columns df)"
    by (rule cleaning_steps_columns [OF run])
  have "list_all (\<lambda>r. length r = length (columns out)) (rows out)" if "rectangular df"
    using cleaning_steps_rectangular [OF that run] by (simp add: rectangular_def)
  then show ?thesis
    using payload decoded run written cols by blast
qed

theorem C8_output_csv_witness:
  "fst (transform_data sample_env (sample_world (Some ''sample''))) =
     Inr ''Transformed 4 rows successfully'' \<and>
   rectangular sample_frame \<and>
   files (snd (transform_data sample_env (sample_world (Some ''sample'')))) OUTPUT_FILE =
     Some \<lparr>header = Some [''SaleID'', ''Town'', ''Sale_Amount''],
           records = [[IntV 1, StrV ''Ansonia'', IntV 325000],
                      [IntV 2, StrV ''Avon'', IntV 430000],
                      [IntV 3, StrV ''Berlin'', FloatV 5 (- 1)],
                      [IntV 4, StrV ''Bethel'', IntV 500]]\<rparr>"
proof -
  note ok = sample_transform
  from C8_output_csv [OF ok] obtain s df out where
    payload: "xcom (sample_world (Some ''sample'')) (''Extract_Data'', ''raw_data'') = Some s" and
    decoded: "read_json sample_env s = Inr df" and
    run: "cleaning_steps df = Inr out" and
    written: "files (snd (transform_data sample_env (sample_world (Some ''sample'')))) OUTPUT_FILE =
      Some \<lparr>header = Some (columns out), records = rows out\<rparr>"
    by blast
  have "s = ''sample''"
    using payload by (simp add: sample_world_def)
  then have "df = sample_frame"
    using decoded by (simp add: sample_env_def)
  then have "out = \<lparr>columns = [''SaleID'', ''Town'', ''Sale_Amount''],
          index = [0, 1, 3, 4],
          rows = [[IntV 1, StrV ''Ansonia'', IntV 325000],
                  [IntV 2, StrV ''Avon'', IntV 430000],
                  [IntV 3, StrV ''Berlin'', FloatV 5 (- 1)],
                  [IntV 4, StrV ''Bethel'', IntV 500]]\<rparr>"
    using run by (simp add: sample_frame_cleaned)
  moreover have "rectangular sample_frame"
    by (simp add: sample_frame_def rectangular_def)
  ultimately show ?thesis
    using ok written by simp
qed

text \<open>
  C9. On every rectangular frame without a \<^verbatim>\<open>SaleID\<close> column, the rows of the output
  without their \<^verbatim>\<open>SaleID\<close> cell, each with its index label, are a subsequence of the
  input rows without their \<^verbatim>\<open>Residential Type\<close> cells, each with its index label: the
  rows kept stand in their input order with the cells they had, under the columns they
  had.
\<close>

theorem C9_rows_unaltered:
  assumes rect: "rectangular df" and sid: "''SaleID'' \<notin> set (columns df)"
  shows "\<exists>out. cleaning_steps df = Inr out \<and>
    tl (columns out) =
      nths (columns df) {j. j < length (columns df) \<and> columns df ! j \<noteq> ''Residential Type''} \<and>
    subseq (zip (index out) (map tl (rows out)))
      (zip (index df)
        (map (\<lambda>r. nths r {j. j < length (columns df) \<and> columns df ! j \<noteq> ''Residential Type''})
          (rows df)))"
proof -
  let ?J = "{j. j < length (columns df) \<and> columns df ! j \<noteq> ''Residential Type''}"
  from cleaning_steps_labelled [OF sid rect] obtain out where
    run: "cleaning_steps df = Inr out" and
    cols: "columns out = ''SaleID'' # filter (\<lambda>c. c \<noteq> ''Residential Type'') (columns df)" and
    z: "zip (index out) (map tl (rows out)) =
      filter (\<lambda>(l, r). \<not> list_ex isna r)
        (zip (index df) (map (strip_row (columns df) [''Residential Type'']) (rows df)))"
    by blast
  have "strip_row (columns df) [''Residential Type''] r = nths r ?J" if "r \<in> set (rows df)" for r
  proof -
    have "length r = length (columns df)"
      using rect that by (simp add: rectangular_def list_all_iff)
    from strip_row_nths [OF this, of "[''Residential Type'']"] show ?thesis by simp
  qed
  then have m: "map (strip_row (columns df) [''Residential Type'']) (rows df) = map (\<lambda>r. nths r ?J) (rows df)"
    by (intro map_cong) simp_all
  have "subseq (zip (index out) (map tl (rows out))) (zip (index df) (map (\<lambda>r. nths r ?J) (rows df)))"
    unfolding z m by (rule subseq_filter_left)
  moreover have "tl (columns out) = nths (columns df) ?J"
    unfolding cols by (simp add: filter_eq_nths)
  ultimately show ?thesis
    using run by blast
qed

theorem C9_rows_unaltered_witness:
  "rectangular sample_frame \<and> ''SaleID'' \<notin> set (columns sample_frame) \<and>
   (\<exists>out. cleaning_steps sample_frame = Inr out \<and>
      tl (columns out) = [''Town'', ''Sale_Amount''] \<and>
      subseq (zip (index out) (map tl (rows out)))
        [(0, [StrV ''Ansonia'', IntV 325000]),
         (1, [StrV ''Avon'', IntV 430000]),
         (2, [NA, IntV 179900]),
         (3, [StrV ''Berlin'', FloatV 5 (- 1)]),
         (4, [StrV ''Bethel'', IntV 500])])"
proof -
  have r: "rectangular sample_frame"
    by (simp add: sample_frame_def rectangular_def)
  have s: "''SaleID'' \<notin> set (columns sample_frame)"
    by (simp add: sample_frame_def)
  have J: "{j. j < length (columns sample_frame) \<and> columns sample_frame ! j \<noteq> ''Residential Type''} = {0, 2}"
    by (auto simp: sample_frame_def less_Suc_eq nth_Cons')
  from C9_rows_unaltered [OF r s] obtain out where
    run: "cleaning_steps sample_frame = Inr out" and
    cols: "tl (columns out) = nths (columns sample_frame) {0, 2}" and
    sub: "subseq (zip (index out) (map tl (rows out)))
      (zip (index sample_frame) (map (\<lambda>r. nths r {0, 2}) (rows sample_frame)))"
    unfolding J by blast
  have "tl (columns out) = [''Town'', ''Sale_Amount'']"
    unfolding cols by (simp add: sample_frame_def nths_Cons)
  moreover have "subseq (zip (index out) (map tl (rows out)))
        [(0, [StrV ''Ansonia'', IntV 325000]),
         (1, [StrV ''Avon'', IntV 430000]),
         (2, [NA, IntV 179900]),
         (3, [StrV ''Berlin'', FloatV 5 (- 1)]),
         (4, [StrV ''Bethel'', IntV 500])]"
    using sub by (simp add: sample_frame_def nths_Cons)
  ultimately show ?thesis
    using r s run by blast
qed

text \<open>
  C10. When every row of the decoded frame has a missing value outside
  \<^verbatim>\<open>Residential Type\<close> (as when it has no row at all), and the frame has no \<^verbatim>\<open>SaleID\<close>
  column and the file system and the encoder answer, the cleaning steps produce a frame
  with no row and an empty \<^verbatim>\<open>SaleID\<close> column in front, the stage returns normally with
  the message for 0 rows, and the file at the output path is a header and no record.
\<close>

theorem C10_empty_result:
  assumes payload: "xcom w (''Extract_Data'', ''raw_data'') = Some s" "s \<noteq> []"
    and decoded: "read_json env s = Inr df"
    and rect: "rectangular df" and sid: "''SaleID'' \<notin> set (columns df)"
    and allmiss: "\<forall>r\<in>set (rows df). \<exists>j<length (columns df).
                    columns df ! j \<noteq> ''Residential Type'' \<and> isna (r ! j)"
    and fs: "os_makedirs env (dirname OUTPUT_FILE) = None" "open_write env OUTPUT_FILE = None"
    and enc: "to_json env
        \<lparr>columns = ''SaleID'' # filter (\<lambda>c. c \<noteq> ''Residential Type'') (columns df),
         index = [], rows = []\<rparr> = Inr js"
  shows "\<exists>out. cleaning_steps df = Inr out \<and> rows out = [] \<and> len out = 0 \<and>
    columns out = ''SaleID'' # filter (\<lambda>c. c \<noteq> ''Residential Type'') (columns df) \<and>
    df_column out ''SaleID'' = [] \<and>
    fst (transform_data env w) = Inr ''Transformed 0 rows successfully'' \<and>
    files (snd (transform_data env w)) OUTPUT_FILE =
      Some \<lparr>header = Some (columns out), records = []\<rparr>"
proof -
  let ?out = "\<lparr>columns = ''SaleID'' # filter (\<lambda>c. c \<noteq> ''Residential Type'') (columns df),
                index = [], rows = []\<rparr>"
  have run: "cleaning_steps df = Inr ?out"
    by (rule cleaning_steps_all_missing [OF rect sid allmiss])
  note whole = transform_data_run [OF payload decoded run fs enc]
  have msg: "fst (transform_data env w) = Inr ''Transformed 0 rows successfully''"
    unfolding whole by (simp add: len_def str_nat_0)
  have written: "files (snd (transform_data env w)) OUTPUT_FILE =
      Some \<lparr>header = Some (columns ?out), records = []\<rparr>"
    unfolding whole by (simp add: df_to_csv_def)
  show ?thesis
    using run msg written by (intro exI [of _ ?out]) (simp add: len_def df_column_def)
qed

theorem C10_empty_result_witness:
  "rectangular null_frame \<and> rectangular empty_frame \<and>
   fst (transform_data sample_env (sample_world (Some ''null''))) =
     Inr ''Transformed 0 rows successfully'' \<and>
   files (snd (transform_data sample_env (sample_world (Some ''null'')))) OUTPUT_FILE =
     Some \<lparr>header = Some [''SaleID'', ''Town'', ''Sale_Amount''], records = []\<rparr> \<and>
   fst (transform_data sample_env (sample_world (Some ''empty''))) =
     Inr ''Transformed 0 rows successfully'' \<and>
   files (snd (transform_data sample_env (sample_world (Some ''empty'')))) OUTPUT_FILE =
     Some \<lparr>header = Some [''SaleID'', ''Town'', ''Sale_Amount''], records = []\<rparr>"
proof -
  have rn: "rectangular null_frame"
    by (simp add: null_frame_def rectangular_def)
  have re: "rectangular empty_frame"
    by (simp add: empty_frame_def rectangular_def)
  have mn: "\<forall>r\<in>set (rows null_frame). \<exists>j<length (columns null_frame).
                    columns null_frame ! j \<noteq> ''Residential Type'' \<and> isna (r ! j)"
    by (simp add: null_frame_def Ex_less_Suc)
  have me: "\<forall>r\<in>set (rows empty_frame). \<exists>j<length (columns empty_frame).
                    columns empty_frame ! j \<noteq> ''Residential Type'' \<and> isna (r ! j)"
    by (simp add: empty_frame_def)
  have "\<exists>out. cleaning_steps null_frame = Inr out \<and> rows out = [] \<and> len out = 0 \<and>
    columns out = ''SaleID'' # filter (\<lambda>c. c \<noteq> ''Residential Type'') (columns null_frame) \<and>
    df_column out ''SaleID'' = [] \<and>
    fst (transform_data sample_env (sample_world (Some ''null''))) =
      Inr ''Transformed 0 rows successfully'' \<and>
    files (snd (transform_data sample_env (sample_world (Some ''null'')))) OUTPUT_FILE =
      Some \<lparr>header = Some (columns out), records = []\<rparr>"
    by (rule C10_empty_result [OF _ _ _ rn _ mn, of _ "''null''" _ "''json''"])
      (simp_all add: sample_world_def sample_env_def null_frame_def)
  then have first: "fst (transform_data sample_env (sample_world (Some ''null''))) =
      Inr ''Transformed 0 rows successfully'' \<and>
    files (snd (transform_data sample_env (sample_world (Some ''null'')))) OUTPUT_FILE =
      Some \<lparr>header = Some [''SaleID'', ''Town'', ''Sale_Amount''], records = []\<rparr>"
    by (auto simp: null_frame_def)
  have "\<exists>out. cleaning_steps empty_frame = Inr out \<and> rows out = [] \<and> len out = 0 \<and>
    columns out = ''SaleID'' # filter (\<lambda>c. c \<noteq> ''Residential Type'') (columns empty_frame) \<and>
    df_column out ''SaleID'' = [] \<and>
    fst (transform_data sample_env (sample_world (Some ''empty''))) =
      Inr ''Transformed 0 rows successfully'' \<and>
    files (snd (transform_data sample_env (sample_world (Some ''empty'')))) OUTPUT_FILE =
      Some \<lparr>header = Some (columns out), records = []\<rparr>"
    by (rule C10_empty_result [OF _ _ _ re _ me, of _ "''empty''" _ "''json''"])
      (simp_all add: sample_world_def sample_env_def empty_frame_def)
  then have second: "fst (transform_data sample_env (sample_world (Some ''empty''))) =
      Inr ''Transformed 0 rows successfully'' \<and>
    files (snd (transform_data sample_env (sample_world (Some ''empty'')))) OUTPUT_FILE =
      Some \<lparr>header = Some [''SaleID'', ''Town'', ''Sale_Amount''], records = []\<rparr>"
    by (auto simp: empty_frame_def)
  show ?thesis
    using rn re first second by blast
qed

end
